theory Spec2Isabelle
  imports Complex_Main "HOL-Library.Word"
begin

section \<open>Arrays\<close>

text \<open>
  A numpy array of rank n is a list nested n times, outermost axis first. A decoded
  frame is indexed (y, x, c), the space-time volume (t, y, x, c). The decoders hand
  over unsigned 8-bit pixels; after \<open>astype(float)\<close> the values are modelled as
  reals: every value the program computes from 8-bit pixels before export is either
  such an integer or a quotient of two of them, and the rounding of the quotient to a
  double is abstracted away.
\<close>

type_synonym 'a frame = "'a list list list"
type_synonym 'a vol = "'a list list list list"

datatype error =
    Could_not_load_frames
  | Need_at_least_one_array
  | All_input_arrays_must_have_same_shape
  | Zero_size_array_reduction
  | Index_out_of_bounds
  | ZeroDivisionError
  | OverflowError
  | Cannot_convert_NaN_to_integer

text \<open>\<open>arr.shape\<close> of a frame and of a volume, read off the first elements.\<close>

definition shape3 :: "'a frame \<Rightarrow> nat \<times> nat \<times> nat" where
  "shape3 f =
     (length f,
      (case f of [] \<Rightarrow> 0 | r # _ \<Rightarrow> length r),
      (case f of [] \<Rightarrow> 0 | r # _ \<Rightarrow> (case r of [] \<Rightarrow> 0 | p # _ \<Rightarrow> length p)))"

definition shape4 :: "'a vol \<Rightarrow> nat \<times> nat \<times> nat \<times> nat" where
  "shape4 v = (length v, (case v of [] \<Rightarrow> (0, 0, 0) | f # _ \<Rightarrow> shape3 f))"

text \<open>A nested list is an array of shape (H, W, C), resp. (T, H, W, C).\<close>

definition is_array3 :: "nat \<Rightarrow> nat \<Rightarrow> nat \<Rightarrow> 'a frame \<Rightarrow> bool" where
  "is_array3 H W C f =
     (length f = H \<and> list_all (\<lambda>r. length r = W \<and> list_all (\<lambda>p. length p = C) r) f)"

definition is_array4 :: "nat \<Rightarrow> nat \<Rightarrow> nat \<Rightarrow> nat \<Rightarrow> 'a vol \<Rightarrow> bool" where
  "is_array4 T H W C v = (length v = T \<and> list_all (is_array3 H W C) v)"

section \<open>Volume construction\<close>

text \<open>\<open>_load_media\<close>: the decoding loop is the decoder's; what is left is the check
  on its result.\<close>

definition load_media :: "'a frame list \<Rightarrow> error + 'a frame list" where
  "load_media frames = (if frames = [] then Inl Could_not_load_frames else Inr frames)"

text \<open>\<open>np.stack(frames, axis=0)\<close>: raises unless all arrays have one shape.\<close>

definition np_stack :: "'a frame list \<Rightarrow> error + 'a vol" where
  "np_stack arrays =
     (case arrays of
        [] \<Rightarrow> Inl Need_at_least_one_array
      | a # as \<Rightarrow>
          if list_all (\<lambda>b. shape3 b = shape3 a) as then Inr arrays
          else Inl All_input_arrays_must_have_same_shape)"

definition astype_float :: "8 word vol \<Rightarrow> real vol" where
  "astype_float v = map (map (map (map (\<lambda>w. real (unat w))))) v"

text \<open>\<open>volume[..., c]\<close>, read (all values of channel c, in (t, y, x) order) and
  written elementwise.\<close>

definition get_channel :: "'a vol \<Rightarrow> nat \<Rightarrow> 'a list" where
  "get_channel v c = concat (map (\<lambda>f. concat (map (map (\<lambda>p. p ! c)) f)) v)"

definition set_channel :: "'a vol \<Rightarrow> nat \<Rightarrow> ('a \<Rightarrow> 'a) \<Rightarrow> 'a vol" where
  "set_channel v c g = map (map (map (\<lambda>p. p[c := g (p ! c)]))) v"

definition channel_min :: "real vol \<Rightarrow> nat \<Rightarrow> real" where
  "channel_min v c = Min (set (get_channel v c))"

definition channel_max :: "real vol \<Rightarrow> nat \<Rightarrow> real" where
  "channel_max v c = Max (set (get_channel v c))"

text \<open>The body of the normalization loop for one channel index.\<close>

definition normalize_channel :: "real vol \<Rightarrow> nat \<Rightarrow> error + real vol" where
  "normalize_channel v c =
     (if get_channel v c = [] then Inl Zero_size_array_reduction
      else if channel_max v c > channel_min v c
        then Inr (set_channel v c
               (\<lambda>x. (x - channel_min v c) / (channel_max v c - channel_min v c)))
        else Inr v)"

fun normalize_loop :: "real vol \<Rightarrow> nat list \<Rightarrow> error + real vol" where
  "normalize_loop v [] = Inr v"
| "normalize_loop v (c # cs) =
     (case normalize_channel v c of
        Inl e \<Rightarrow> Inl e
      | Inr v' \<Rightarrow> normalize_loop v' cs)"

definition normalize :: "real vol \<Rightarrow> error + real vol" where
  "normalize v = normalize_loop v [0 ..< snd (snd (snd (shape4 v)))]"

text \<open>Lines 34 to 41 of the constructor: stack, convert, normalize.\<close>

definition build_volume :: "8 word frame list \<Rightarrow> error + real vol" where
  "build_volume frames =
     (case np_stack frames of
        Inl e \<Rightarrow> Inl e
      | Inr stacked \<Rightarrow> normalize (astype_float stacked))"

definition init_volume :: "8 word frame list \<Rightarrow> error + real vol" where
  "init_volume decoded =
     (case load_media decoded of
        Inl e \<Rightarrow> Inl e
      | Inr frames \<Rightarrow> build_volume frames)"

section \<open>Python floats and the playback rate\<close>

text \<open>
  A Python float as far as the rate handling can tell values apart: a finite value,
  the two infinities, or not-a-number.
\<close>

datatype pyfloat = Num real | PosInf | NegInf | NaN

text \<open>\<open>x <= 0\<close> and \<open>x > 1000\<close>; every comparison with NaN is false.\<close>

fun le_zero :: "pyfloat \<Rightarrow> bool" where
  "le_zero (Num r) = (r \<le> 0)"
| "le_zero PosInf = False"
| "le_zero NegInf = True"
| "le_zero NaN = False"

fun gt_1000 :: "pyfloat \<Rightarrow> bool" where
  "gt_1000 (Num r) = (r > 1000)"
| "gt_1000 PosInf = True"
| "gt_1000 NegInf = False"
| "gt_1000 NaN = False"

text \<open>\<open>1000 / x\<close>.\<close>

fun div_1000 :: "pyfloat \<Rightarrow> error + pyfloat" where
  "div_1000 (Num r) = (if r = 0 then Inl ZeroDivisionError else Inr (Num (1000 / r)))"
| "div_1000 PosInf = Inr (Num 0)"
| "div_1000 NegInf = Inr (Num 0)"
| "div_1000 NaN = Inr NaN"

text \<open>\<open>int(x)\<close>: truncation towards zero; it raises on infinities and NaN.\<close>

definition py_trunc :: "real \<Rightarrow> int" where
  "py_trunc r = (if r < 0 then \<lceil>r\<rceil> else \<lfloor>r\<rfloor>)"

fun py_int :: "pyfloat \<Rightarrow> error + int" where
  "py_int (Num r) = Inr (py_trunc r)"
| "py_int PosInf = Inl OverflowError"
| "py_int NegInf = Inl OverflowError"
| "py_int NaN = Inl Cannot_convert_NaN_to_integer"

subsection \<open>The builtin \<open>float(text)\<close>\<close>





definition lower_char :: "char \<Rightarrow> char" where
  "lower_char c = (let n = (of_char c :: nat) in if 65 \<le> n \<and> n \<le> 90 then char_of (n + 32) else c)"

definition str_lower :: "string \<Rightarrow> string" where
  "str_lower s = map lower_char s"









section \<open>The visualizer\<close>

record visualizer =
  volume :: "real vol"
  time :: nat
  height :: nat
  width :: nat
  channels :: nat
  fps :: pyfloat
  interval :: pyfloat
  current_view :: string
  frame :: nat
  base_name :: string

text \<open>
  The constructor, without the widgets. Its inputs are what the decoders return: the
  extension of the path, the rate the video container reports, the base name of the
  file and the decoded frames.
\<close>

definition detect_fps :: "string \<Rightarrow> pyfloat \<Rightarrow> pyfloat" where
  "detect_fps ext cap_fps =
     (if str_lower ext \<notin> set [''.gif'', ''.png'', ''.jpg'', ''.jpeg'']
      then (if le_zero cap_fps \<or> gt_1000 cap_fps then Num 20 else cap_fps)
      else Num 20)"

definition init ::
  "string \<Rightarrow> string \<Rightarrow> pyfloat \<Rightarrow> 8 word frame list \<Rightarrow> error + visualizer" where
  "init base ext cap_fps decoded =
     (case load_media decoded of
        Inl e \<Rightarrow> Inl e
      | Inr frames \<Rightarrow>
          (case div_1000 (detect_fps ext cap_fps) of
             Inl e \<Rightarrow> Inl e
           | Inr i \<Rightarrow>
               (case build_volume frames of
                  Inl e \<Rightarrow> Inl e
                | Inr v \<Rightarrow>
                    (case shape4 v of (T, H, W, C) \<Rightarrow>
                       Inr \<lparr>volume = v, time = T, height = H, width = W, channels = C,
                            fps = detect_fps ext cap_fps, interval = i,
                            current_view = ''X-Y-T'', frame = 0, base_name = base\<rparr>))))"

text \<open>\<open>dimension_changed\<close>: view and frame counter are replaced together.\<close>

definition dimension_changed :: "visualizer \<Rightarrow> string \<Rightarrow> visualizer" where
  "dimension_changed st label = st\<lparr>current_view := label, frame := 0\<rparr>"


text \<open>\<open>start_animation\<close>: the number of frames the animation runs through.\<close>

definition start_animation :: "visualizer \<Rightarrow> nat" where
  "start_animation st =
     (if current_view st = ''X-Y-T'' then time st
      else if current_view st = ''Y-T-X'' then width st
      else height st)"

section \<open>Slices for display\<close>

definition np_zeros3 :: "nat \<Rightarrow> nat \<Rightarrow> nat \<Rightarrow> real frame" where
  "np_zeros3 a b c = replicate a (replicate b (replicate c 0))"

definition np_zeros4 :: "nat \<Rightarrow> nat \<Rightarrow> nat \<Rightarrow> nat \<Rightarrow> real vol" where
  "np_zeros4 n a b c = replicate n (np_zeros3 a b c)"

text \<open>\<open>volume[:, :, x, c]\<close>, of shape (T, H), and \<open>volume[:, y, :, c]\<close>, of shape
  (T, W); an index beyond the axis raises.\<close>

definition index_x :: "real vol \<Rightarrow> nat \<Rightarrow> nat \<Rightarrow> error + real list list" where
  "index_x v x c =
     (case shape4 v of (T, H, W, C) \<Rightarrow>
        if x < W \<and> c < C then Inr (map (map (\<lambda>row. row ! x ! c)) v)
        else Inl Index_out_of_bounds)"

definition index_y :: "real vol \<Rightarrow> nat \<Rightarrow> nat \<Rightarrow> error + real list list" where
  "index_y v y c =
     (case shape4 v of (T, H, W, C) \<Rightarrow>
        if y < H \<and> c < C then Inr (map (\<lambda>f. map (\<lambda>p. p ! c) (f ! y)) v)
        else Inl Index_out_of_bounds)"

text \<open>\<open>slice_data[..., c] = a\<close> for an image of shape (A, B, 3) and values of
  shape (A, B). The two shapes agree wherever the program assigns, since both come
  from the one volume.\<close>

definition assign_last :: "real frame \<Rightarrow> nat \<Rightarrow> real list list \<Rightarrow> real frame" where
  "assign_last S c a = map2 (map2 (\<lambda>p x. p[c := x])) S a"

text \<open>The loop \<open>for c in range(3)\<close> filling an image channel by channel.\<close>

fun fill_channels ::
  "(nat \<Rightarrow> error + real list list) \<Rightarrow> real frame \<Rightarrow> nat list \<Rightarrow> error + real frame" where
  "fill_channels src S [] = Inr S"
| "fill_channels src S (c # cs) =
     (case src c of
        Inl e \<Rightarrow> Inl e
      | Inr a \<Rightarrow> fill_channels src (assign_last S c a) cs)"

text \<open>\<open>update\<close>: the image handed to the display for depth index k. The animation
  calls it with the indices of \<open>range(frames)\<close>, so k is a natural number.\<close>

definition update :: "visualizer \<Rightarrow> nat \<Rightarrow> error + real frame" where
  "update st k =
     (if current_view st = ''X-Y-T''
        then (if k < length (volume st) then Inr (volume st ! k) else Inl Index_out_of_bounds)
      else if current_view st = ''Y-T-X''
        then fill_channels (index_x (volume st) k) (np_zeros3 (time st) (height st) 3) [0 ..< 3]
      else fill_channels (index_y (volume st) k) (np_zeros3 (time st) (width st) 3) [0 ..< 3])"

text \<open>The marker position \<open>plane_pos\<close> computed beside the image.\<close>

definition plane_pos :: "visualizer \<Rightarrow> nat \<Rightarrow> real" where
  "plane_pos st k =
     (if current_view st = ''X-Y-T''
        then (if time st > 1 then real k / real (time st - 1) else 0)
      else if current_view st = ''Y-T-X''
        then (if width st > 1 then real k / real (width st - 1) else 0)
      else (if height st > 1 then real k / real (height st - 1) else 0))"

section \<open>Export\<close>

text \<open>\<open>str(n)\<close> for an integer and \<open>os.path.join\<close> for two POSIX path components.\<close>

fun str_nat :: "nat \<Rightarrow> string" where
  "str_nat n =
     (if n < 10 then [char_of (48 + n)]
      else str_nat (n div 10) @ [char_of (48 + n mod 10)])"

definition str_int :: "int \<Rightarrow> string" where
  "str_int i = (if i < 0 then CHR ''-'' # str_nat (nat (- i)) else str_nat (nat i))"

definition os_path_join :: "string \<Rightarrow> string \<Rightarrow> string" where
  "os_path_join a b =
     (if b \<noteq> [] \<and> hd b = CHR ''/'' then b
      else if a = [] \<or> last a = CHR ''/'' then a @ b
      else a @ ''/'' @ b)"

definition output_path :: "visualizer \<Rightarrow> error + string" where
  "output_path st =
     (case py_int (fps st) of
        Inl e \<Rightarrow> Inl e
      | Inr n \<Rightarrow>
          Inr (os_path_join ''exports''
                 (base_name st @ ''_'' @ str_lower (current_view st) @ ''_'' @
                  str_int n @ ''fps.gif'')))"

text \<open>The loop over the depth index that fills \<open>data\<close> image by image.\<close>

fun export_loop ::
  "(nat \<Rightarrow> nat \<Rightarrow> error + real list list) \<Rightarrow> real vol \<Rightarrow> nat list \<Rightarrow> error + real vol" where
  "export_loop src data [] = Inr data"
| "export_loop src data (x # xs) =
     (case fill_channels (src x) (data ! x) [0 ..< 3] of
        Inl e \<Rightarrow> Inl e
      | Inr S \<Rightarrow> export_loop src (data[x := S]) xs)"

text \<open>The number of frames and the floating-point \<open>data\<close> of the active view.\<close>

definition export_data :: "visualizer \<Rightarrow> error + nat \<times> real vol" where
  "export_data st =
     (if current_view st = ''X-Y-T'' then Inr (time st, volume st)
      else if current_view st = ''Y-T-X''
        then (case export_loop (index_x (volume st))
                     (np_zeros4 (width st) (time st) (height st) 3) [0 ..< width st] of
                Inl e \<Rightarrow> Inl e
              | Inr data \<Rightarrow> Inr (width st, data))
      else (case export_loop (index_y (volume st))
                   (np_zeros4 (height st) (time st) (width st) 3) [0 ..< height st] of
              Inl e \<Rightarrow> Inl e
            | Inr data \<Rightarrow> Inr (height st, data)))"

text \<open>\<open>data[i] for i in range(frames)\<close>: the images handed to the writer.\<close>

definition written_frames :: "nat \<Rightarrow> 'a vol \<Rightarrow> error + 'a vol" where
  "written_frames n data =
     (if n \<le> length data then Inr (map (\<lambda>i. data ! i) [0 ..< n])
      else Inl Index_out_of_bounds)"

text \<open>\<open>(data * 255).astype(np.uint8)\<close>: the fraction is cut off and the integer
  is reduced to its low eight bits.\<close>

definition to_uint8 :: "real \<Rightarrow> 8 word" where
  "to_uint8 x = word_of_int (py_trunc x)"

definition astype_uint8 :: "real vol \<Rightarrow> 8 word vol" where
  "astype_uint8 data = map (map (map (map (\<lambda>x. to_uint8 (x * 255))))) data"

definition duration :: "visualizer \<Rightarrow> error + int" where
  "duration st = (case div_1000 (fps st) of Inl e \<Rightarrow> Inl e | Inr q \<Rightarrow> py_int q)"

text \<open>\<open>export_button_clicked\<close>: the path is computed outside the \<open>try\<close>, so its
  error escapes; an error inside is caught and reported as a failed export.\<close>

datatype export_outcome =
    Export_complete string int "8 word vol"
  | Export_failed error

definition export_button_clicked :: "visualizer \<Rightarrow> error + export_outcome" where
  "export_button_clicked st =
     (case output_path st of
        Inl e \<Rightarrow> Inl e
      | Inr path \<Rightarrow>
          Inr (case export_data st of
                 Inl e \<Rightarrow> Export_failed e
               | Inr (n, data) \<Rightarrow>
                   (case duration st of
                      Inl e \<Rightarrow> Export_failed e
                    | Inr d \<Rightarrow>
                        (case written_frames n (astype_uint8 data) of
                           Inl e \<Rightarrow> Export_failed e
                         | Inr fs \<Rightarrow> Export_complete path d fs))))"

section \<open>A small visualizer for concrete instances\<close>

definition example_volume :: "real vol" where
  "example_volume =
     [[[[0, 1, 2], [3, 4, 5]], [[6, 7, 8], [9, 10, 11]]],
      [[[12, 13, 14], [15, 16, 17]], [[18, 19, 20], [21, 22, 23]]]]"

definition example_visualizer :: "string \<Rightarrow> pyfloat \<Rightarrow> visualizer" where
  "example_visualizer view rate =
     \<lparr>volume = example_volume, time = 2, height = 2, width = 2, channels = 3,
      fps = rate, interval = Num 50, current_view = view, frame = 0,
      base_name = ''clip''\<rparr>"



section \<open>Facts about arrays and channels\<close>

lemma sum_list_const_on:
  "(\<And>x. x \<in> set xs \<Longrightarrow> f x = (k::nat)) \<Longrightarrow> sum_list (map f xs) = length xs * k"
  by (induction xs) auto

lemma shape3_array:
  "is_array3 H W C f \<Longrightarrow> 0 < H \<Longrightarrow> 0 < W \<Longrightarrow> shape3 f = (H, W, C)"
  unfolding is_array3_def shape3_def
  by (auto simp: list_all_iff split: list.splits)

lemma shape4_array:
  "is_array4 T H W C v \<Longrightarrow> 0 < T \<Longrightarrow> 0 < H \<Longrightarrow> 0 < W \<Longrightarrow> shape4 v = (T, H, W, C)"
  unfolding is_array4_def is_array3_def shape4_def shape3_def
  by (auto simp: list_all_iff split: list.splits)

lemma get_set_channel_same:
  "is_array4 T H W C v \<Longrightarrow> c < C \<Longrightarrow>
   get_channel (set_channel v c g) c = map g (get_channel v c)"
  unfolding is_array4_def is_array3_def get_channel_def set_channel_def
  by (auto simp: map_concat list_all_iff comp_def intro!: arg_cong[where f=concat])

lemma get_set_channel_other:
  "c' \<noteq> c \<Longrightarrow> get_channel (set_channel v c g) c' = get_channel v c'"
  unfolding get_channel_def set_channel_def
  by (auto simp: map_concat comp_def intro!: arg_cong[where f=concat])

lemma is_array4_set_channel:
  "is_array4 T H W C v \<Longrightarrow> is_array4 T H W C (set_channel v c g)"
  unfolding is_array4_def is_array3_def set_channel_def
  by (auto simp: list_all_iff)

lemma length_get_channel:
  assumes "is_array4 T H W C v"
  shows "length (get_channel v c) = T * H * W"
proof -
  have row: "length (concat (map (map (\<lambda>p. p ! c)) f)) = H * W" if "f \<in> set v" for f
  proof -
    from assms that have "length f = H" and "\<And>r. r \<in> set f \<Longrightarrow> length r = W"
      by (auto simp: is_array4_def is_array3_def list_all_iff)
    then show ?thesis
      by (simp add: length_concat comp_def sum_list_const_on)
  qed
  from assms have "length v = T"
    by (simp add: is_array4_def)
  with row show ?thesis
    by (simp add: get_channel_def length_concat comp_def sum_list_const_on)
qed

lemma is_array4_astype_float:
  "list_all (is_array3 H W C) frames \<Longrightarrow>
   is_array4 (length frames) H W C (astype_float frames)"
  unfolding is_array4_def is_array3_def astype_float_def
  by (auto simp: list_all_iff)

section \<open>Normalization\<close>

lemma normalize_channel_ok:
  assumes "is_array4 T H W C v" "0 < T" "0 < H" "0 < W" "c < C"
  shows "\<exists>v'. normalize_channel v c = Inr v' \<and> is_array4 T H W C v' \<and>
     (\<forall>c'. get_channel v' c' =
        (if c' = c \<and> channel_max v c > channel_min v c
         then map (\<lambda>x. (x - channel_min v c) / (channel_max v c - channel_min v c))
                (get_channel v c)
         else get_channel v c'))"
proof -
  have "length (get_channel v c) = T * H * W"
    using assms(1) by (rule length_get_channel)
  with assms have ne: "get_channel v c \<noteq> []"
    by auto
  show ?thesis
  proof (cases "channel_max v c > channel_min v c")
    case True
    with ne assms show ?thesis
      by (auto simp: normalize_channel_def is_array4_set_channel get_set_channel_other
          get_set_channel_same)
  next
    case False
    with ne assms show ?thesis
      by (auto simp: normalize_channel_def)
  qed
qed

lemma normalize_loop_ok:
  assumes "is_array4 T H W C v" "0 < T" "0 < H" "0 < W" "set cs \<subseteq> {..<C}" "distinct cs"
  shows "\<exists>v'. normalize_loop v cs = Inr v' \<and> is_array4 T H W C v' \<and>
     (\<forall>c. get_channel v' c =
        (if c \<in> set cs \<and> channel_max v c > channel_min v c
         then map (\<lambda>x. (x - channel_min v c) / (channel_max v c - channel_min v c))
                (get_channel v c)
         else get_channel v c))"
  using assms
proof (induction cs arbitrary: v)
  case Nil
  then show ?case by simp
next
  case (Cons a cs)
  from Cons.prems have a: "a < C" and cs: "set cs \<subseteq> {..<C}" "distinct cs" "a \<notin> set cs"
    by auto
  from normalize_channel_ok[OF Cons.prems(1-4) a]
  obtain v1 where v1: "normalize_channel v a = Inr v1" "is_array4 T H W C v1"
    and ch1: "\<And>c'. get_channel v1 c' =
        (if c' = a \<and> channel_max v a > channel_min v a
         then map (\<lambda>x. (x - channel_min v a) / (channel_max v a - channel_min v a))
                (get_channel v a)
         else get_channel v c')"
    by blast
  from Cons.IH[OF v1(2) Cons.prems(2-4) cs(1,2)]
  obtain v2 where v2: "normalize_loop v1 cs = Inr v2" "is_array4 T H W C v2"
    and ch2: "\<And>c. get_channel v2 c =
        (if c \<in> set cs \<and> channel_max v1 c > channel_min v1 c
         then map (\<lambda>x. (x - channel_min v1 c) / (channel_max v1 c - channel_min v1 c))
                (get_channel v1 c)
         else get_channel v1 c)"
    by blast
  have same: "channel_max v1 c = channel_max v c \<and> channel_min v1 c = channel_min v c
      \<and> get_channel v1 c = get_channel v c" if "c \<in> set cs" for c
  proof -
    from that cs(3) have "c \<noteq> a" by auto
    then show ?thesis by (simp add: ch1 channel_max_def channel_min_def)
  qed
  have "get_channel v2 c =
        (if c \<in> set (a # cs) \<and> channel_max v c > channel_min v c
         then map (\<lambda>x. (x - channel_min v c) / (channel_max v c - channel_min v c))
                (get_channel v c)
         else get_channel v c)" for c
  proof (cases "c \<in> set cs")
    case True
    with same[OF True] show ?thesis by (simp add: ch2)
  next
    case False
    then show ?thesis by (auto simp add: ch2 ch1)
  qed
  with v1 v2 show ?case by simp
qed

lemma normalize_ok:
  assumes "is_array4 T H W C v" "0 < T" "0 < H" "0 < W"
  shows "\<exists>v'. normalize v = Inr v' \<and> is_array4 T H W C v' \<and>
     (\<forall>c<C. get_channel v' c =
        (if channel_max v c > channel_min v c
         then map (\<lambda>x. (x - channel_min v c) / (channel_max v c - channel_min v c))
                (get_channel v c)
         else get_channel v c))"
proof -
  from assms have "shape4 v = (T, H, W, C)" by (rule shape4_array)
  then have n: "normalize v = normalize_loop v [0..<C]" by (simp add: normalize_def)
  have "set [0..<C] \<subseteq> {..<C}" "distinct [0..<C]" by auto
  from normalize_loop_ok[OF assms this] n show ?thesis by auto
qed

lemma rescale_Min_Max:
  fixes xs :: "real list"
  assumes "xs \<noteq> []" "Min (set xs) < Max (set xs)"
  shows "Min (set (map (\<lambda>x. (x - Min (set xs)) / (Max (set xs) - Min (set xs))) xs)) = 0"
    and "Max (set (map (\<lambda>x. (x - Min (set xs)) / (Max (set xs) - Min (set xs))) xs)) = 1"
proof -
  let ?g = "\<lambda>x. (x - Min (set xs)) / (Max (set xs) - Min (set xs))"
  from assms(2) have g: "mono ?g"
    by (intro monoI divide_right_mono) simp_all
  from assms(1) have fin: "finite (set xs)" and ne: "set xs \<noteq> {}"
    by simp_all
  have mn: "Min (?g ` set xs) = ?g (Min (set xs))"
    by (rule mono_Min_commute[OF g fin ne, symmetric])
  have mx: "Max (?g ` set xs) = ?g (Max (set xs))"
    by (rule mono_Max_commute[OF g fin ne, symmetric])
  from assms(2) have "?g (Min (set xs)) = 0" "?g (Max (set xs)) = 1"
    by simp_all
  with mn mx show "Min (set (map ?g xs)) = 0" "Max (set (map ?g xs)) = 1"
    by (simp_all only: set_map)
qed

lemma np_stack_ok:
  assumes "frames \<noteq> []" "list_all (is_array3 H W C) frames" "0 < H" "0 < W"
  shows "np_stack frames = Inr frames"
proof -
  from assms obtain a as where fr: "frames = a # as"
    by (cases frames) auto
  with assms have "shape3 b = (H, W, C)" if "b \<in> set frames" for b
    using that by (auto simp: list_all_iff shape3_array)
  with fr show ?thesis
    by (simp add: np_stack_def list_all_iff)
qed

lemma init_volume_channels:
  assumes "frames \<noteq> []" "list_all (is_array3 H W C) frames" "0 < H" "0 < W"
  shows "\<exists>v. init_volume frames = Inr v \<and> is_array4 (length frames) H W C v \<and>
     (\<forall>c<C. get_channel v c =
        (if channel_max (astype_float frames) c > channel_min (astype_float frames) c
         then map (\<lambda>x. (x - channel_min (astype_float frames) c) /
                 (channel_max (astype_float frames) c - channel_min (astype_float frames) c))
               (get_channel (astype_float frames) c)
         else get_channel (astype_float frames) c))"
proof -
  have st: "np_stack frames = Inr frames"
    using assms by (rule np_stack_ok)
  have arr: "is_array4 (length frames) H W C (astype_float frames)"
    using assms(2) by (rule is_array4_astype_float)
  from assms(1) have "0 < length frames" by simp
  from normalize_ok[OF arr this assms(3,4)] st assms(1) show ?thesis
    by (simp add: init_volume_def load_media_def build_volume_def)
qed

text \<open>
  C2. During normalization a channel whose maximum does not exceed its minimum keeps
  exactly the values of the stacked floating-point volume, and a channel with
  max > min gets every value v replaced by (v - min) / (max - min), where min and
  max are those of that channel of the stacked volume. Normalization of an array
  with at least one frame, row and column always returns.
\<close>

theorem normalize_rescales_only_nonconstant:
  assumes "is_array4 T H W C v" "0 < T" "0 < H" "0 < W" "c < C"
  shows "\<exists>v'. normalize v = Inr v' \<and>
     get_channel v' c =
       (if channel_max v c > channel_min v c
        then map (\<lambda>x. (x - channel_min v c) / (channel_max v c - channel_min v c))
               (get_channel v c)
        else get_channel v c)"
  using normalize_ok[OF assms(1-4)] assms(5) by blast

theorem normalize_rescales_only_nonconstant_witness:
  "is_array4 1 1 2 2 [[[[5, 0], [5, 4::real]]]] \<and>
   (\<exists>v'. normalize [[[[5, 0], [5, 4]]]] = Inr v' \<and> get_channel v' 0 = [5, 5]) \<and>
   (\<exists>v'. normalize [[[[5, 0], [5, 4]]]] = Inr v' \<and> get_channel v' 1 = [0, 1])"
  using normalize_rescales_only_nonconstant[of 1 1 2 2 "[[[[5, 0], [5, 4]]]]" 0]
    normalize_rescales_only_nonconstant[of 1 1 2 2 "[[[[5, 0], [5, 4]]]]" 1]
  by (simp add: is_array4_def is_array3_def get_channel_def channel_min_def channel_max_def)

section \<open>Construction of the volume\<close>

text \<open>
  C1, as the code has it. After volume construction from a non-empty sequence of
  equally shaped frames, every channel c that is not constant in the source has
  minimum 0 and maximum 1 over all (t, y, x); a channel that is constant in the
  source (min = max) keeps exactly its source values, so it is all zero only when
  the source value was zero.
\<close>

theorem init_volume_min_max:
  assumes "frames \<noteq> []" "list_all (is_array3 H W C) frames" "0 < H" "0 < W" "c < C"
  shows "\<exists>v. init_volume frames = Inr v \<and>
     (if channel_min (astype_float frames) c < channel_max (astype_float frames) c
      then channel_min v c = 0 \<and> channel_max v c = 1
      else get_channel v c = get_channel (astype_float frames) c)"
proof -
  from init_volume_channels[OF assms(1-4)] assms(5)
  obtain v where v: "init_volume frames = Inr v"
    and ch: "get_channel v c =
        (if channel_max (astype_float frames) c > channel_min (astype_float frames) c
         then map (\<lambda>x. (x - channel_min (astype_float frames) c) /
                 (channel_max (astype_float frames) c - channel_min (astype_float frames) c))
               (get_channel (astype_float frames) c)
         else get_channel (astype_float frames) c)"
    by blast
  have arr: "is_array4 (length frames) H W C (astype_float frames)"
    using assms(2) by (rule is_array4_astype_float)
  have "length (get_channel (astype_float frames) c) = length frames * H * W"
    using arr by (rule length_get_channel)
  with assms have ne: "get_channel (astype_float frames) c \<noteq> []"
    by auto
  show ?thesis
  proof (cases "channel_min (astype_float frames) c < channel_max (astype_float frames) c")
    case True
    then have "Min (set (get_channel (astype_float frames) c))
        < Max (set (get_channel (astype_float frames) c))"
      by (simp add: channel_min_def channel_max_def)
    from rescale_Min_Max[OF ne this] True ch v show ?thesis
      by (simp add: channel_min_def channel_max_def)
  next
    case False
    with ch v show ?thesis by simp
  qed
qed

theorem init_volume_min_max_witness:
  "list_all (is_array3 1 2 2) [[[[255, 0], [255, 128]]], [[[255, 64], [255, 255 :: 8 word]]]] \<and>
   (\<exists>v. init_volume [[[[255, 0], [255, 128]]], [[[255, 64], [255, 255]]]] = Inr v \<and>
        channel_min v 1 = 0 \<and> channel_max v 1 = 1) \<and>
   (\<exists>v. init_volume [[[[255, 0], [255, 128]]], [[[255, 64], [255, 255]]]] = Inr v \<and>
        get_channel v 0 = [255, 255, 255, 255])"
  using init_volume_min_max[of "[[[[255, 0], [255, 128]]], [[[255, 64], [255, 255]]]]" 1 2 2 1]
    init_volume_min_max[of "[[[[255, 0], [255, 128]]], [[[255, 64], [255, 255]]]]" 1 2 2 0]
  by (simp add: is_array3_def astype_float_def get_channel_def channel_min_def channel_max_def)

text \<open>
  C1 as stated fails: two frames of 1 by 2 pixels whose first channel is constant 255.
  The constructed volume holds 255 in that channel, not 0.
\<close>

theorem constant_channel_not_zeroed:
  "init_volume [[[[255, 0], [255, 128]]], [[[255, 64], [255, 255]]]]
     = Inr [[[[255, 0], [255, 128 / 255]]], [[[255, 64 / 255], [255, 1]]]] \<and>
   channel_min (astype_float [[[[255, 0], [255, 128]]], [[[255, 64], [255, 255]]]]) 0
     = channel_max (astype_float [[[[255, 0], [255, 128]]], [[[255, 64], [255, 255]]]]) 0 \<and>
   get_channel [[[[255, 0], [255, 128 / 255]]], [[[255, 64 / 255], [255, 1]]]] 0
     = [255, 255, 255, 255 :: real] \<and>
   channel_max [[[[255, 0], [255, 128 / 255]]], [[[255, 64 / 255], [255, 1]]]] 0 \<noteq> 0"
  by (simp add: init_volume_def load_media_def build_volume_def np_stack_def shape3_def
      astype_float_def normalize_def shape4_def normalize_channel_def get_channel_def
      channel_min_def channel_max_def set_channel_def upt_conv_Cons)

text \<open>
  C8, as the code has it. When two of the decoded frames differ in their (height,
  width, channels) shape, volume construction fails, and the error is the one the
  stacking step raises; no volume is produced, so nothing is truncated or padded.
\<close>

theorem mismatched_frames_fail_in_stack:
  assumes "a \<in> set frames" "b \<in> set frames" "shape3 a \<noteq> shape3 b"
  shows "init_volume frames = Inl All_input_arrays_must_have_same_shape"
proof -
  from assms(1) obtain f fs where fr: "frames = f # fs"
    by (cases frames) auto
  have "\<not> list_all (\<lambda>g. shape3 g = shape3 f) fs"
  proof
    assume "list_all (\<lambda>g. shape3 g = shape3 f) fs"
    with fr have "\<And>g. g \<in> set frames \<Longrightarrow> shape3 g = shape3 f"
      by (auto simp: list_all_iff)
    with assms show False by metis
  qed
  with fr show ?thesis
    by (simp add: init_volume_def load_media_def build_volume_def np_stack_def)
qed

theorem mismatched_frames_fail_in_stack_witness:
  "shape3 [[[1, 2, 3 :: 8 word]]] \<noteq> shape3 [[[1, 2, 3 :: 8 word], [4, 5, 6]]] \<and>
   init_volume [[[[1, 2, 3]]], [[[1, 2, 3], [4, 5, 6]]]]
     = Inl All_input_arrays_must_have_same_shape"
  using mismatched_frames_fail_in_stack[of "[[[1, 2, 3]]]" "[[[[1, 2, 3]]], [[[1, 2, 3], [4, 5, 6]]]]"
      "[[[1, 2, 3], [4, 5, 6]]]"]
  by (simp add: shape3_def)

text \<open>
  C8 as stated fails: the only check that runs before stacking, the one for an empty
  frame list, accepts a frame of 1 by 1 followed by a frame of 1 by 2 pixels; the
  failure is raised inside the stacking step.
\<close>

theorem no_validation_before_stack:
  "load_media [[[[1, 2, 3 :: 8 word]]], [[[1, 2, 3], [4, 5, 6]]]]
     = Inr [[[[1, 2, 3]]], [[[1, 2, 3], [4, 5, 6]]]] \<and>
   np_stack [[[[1, 2, 3 :: 8 word]]], [[[1, 2, 3], [4, 5, 6]]]]
     = Inl All_input_arrays_must_have_same_shape \<and>
   init_volume [[[[1, 2, 3]]], [[[1, 2, 3], [4, 5, 6]]]]
     = Inl All_input_arrays_must_have_same_shape"
  by (simp add: init_volume_def load_media_def build_volume_def np_stack_def shape3_def)

section \<open>The state the constructor builds\<close>

text \<open>
  For decoded frames of one shape the constructor returns, and the sizes it stores
  are those of its volume; changing the view keeps them. These are the assumptions
  on the state made below.
\<close>

lemma init_state:
  assumes "frames \<noteq> []" "list_all (is_array3 H W C) frames" "0 < H" "0 < W"
    and "init base ext cap_fps frames = Inr st"
  shows "init_volume frames = Inr (volume st) \<and>
    is_array4 (time st) (height st) (width st) (channels st) (volume st) \<and>
    time st = length frames \<and> height st = H \<and> width st = W \<and> channels st = C \<and>
    current_view st = ''X-Y-T'' \<and> frame st = 0"
proof -
  from init_volume_channels[OF assms(1-4)]
  obtain v where v: "init_volume frames = Inr v" "is_array4 (length frames) H W C v"
    by blast
  from assms(1) have "0 < length frames" by simp
  with v(2) assms(3,4) have sh: "shape4 v = (length frames, H, W, C)"
    by (simp add: shape4_array)
  from v(1) assms(1) have b: "build_volume frames = Inr v"
    by (simp add: init_volume_def load_media_def)
  from assms(5) assms(1) b sh obtain i where
    "st = \<lparr>volume = v, time = length frames, height = H, width = W, channels = C,
          fps = detect_fps ext cap_fps, interval = i,
          current_view = ''X-Y-T'', frame = 0, base_name = base\<rparr>"
    by (auto simp: init_def load_media_def split: sum.splits)
  with v show ?thesis by simp
qed

lemma dimension_changed_fields:
  "volume (dimension_changed st label) = volume st \<and>
   time (dimension_changed st label) = time st \<and>
   height (dimension_changed st label) = height st \<and>
   width (dimension_changed st label) = width st \<and>
   channels (dimension_changed st label) = channels st \<and>
   current_view (dimension_changed st label) = label \<and>
   frame (dimension_changed st label) = 0"
  by (simp add: dimension_changed_def)

lemma detect_fps_div:
  "\<exists>i. div_1000 (detect_fps ext cap_fps) = Inr i"
  by (cases cap_fps) (auto simp: detect_fps_def)

lemma init_returns:
  assumes "frames \<noteq> []" "list_all (is_array3 H W C) frames" "0 < H" "0 < W"
  shows "\<exists>st. init base ext cap_fps frames = Inr st"
proof -
  from init_volume_channels[OF assms]
  obtain v where "init_volume frames = Inr v"
    by blast
  with assms(1) have b: "build_volume frames = Inr v"
    by (simp add: init_volume_def load_media_def)
  obtain i where "div_1000 (detect_fps ext cap_fps) = Inr i"
    using detect_fps_div by blast
  with b assms(1) show ?thesis
    by (simp add: init_def load_media_def split: prod.splits)
qed

section \<open>Slices\<close>

lemma map2_same:
  "map2 h (map f xs) (map g xs) = map (\<lambda>x. h (f x) (g x)) xs"
  by (induction xs) auto

lemma assign_last_maps:
  "assign_last (map (\<lambda>a. map (f a) (k a)) v) c (map (\<lambda>a. map (g a) (k a)) v)
     = map (\<lambda>a. map (\<lambda>b. (f a b)[c := g a b]) (k a)) v"
  unfolding assign_last_def by (simp add: map2_same)

lemma fill_three:
  assumes "\<And>c. c < 3 \<Longrightarrow> src c = Inr (map (\<lambda>a. map (\<lambda>b. g a b c) (k a)) v)"
  shows "fill_channels src (map (\<lambda>a. map (\<lambda>b. replicate 3 0) (k a)) v) [0 ..< 3]
     = Inr (map (\<lambda>a. map (\<lambda>b. [g a b 0, g a b 1, g a b 2]) (k a)) v)"
proof -
  have u: "[0 ..< 3] = [0, 1, 2]"
    by (simp add: upt_conv_Cons)
  have r: "replicate 3 (0::real) = [0, 0, 0]"
    by (simp add: numeral_3_eq_3)
  have l: "[0, 0, 0::real][0 := p, 1 := q, 2 := s] = [p, q, s]" for p q s
    by (simp add: numeral_2_eq_2)
  show ?thesis
    unfolding u r
    by (simp add: assms assign_last_maps[where f="\<lambda>a b. _ a b"] l)
qed

lemma zeros3_x:
  assumes "is_array4 T H W C v"
  shows "np_zeros3 T H n = map (\<lambda>f. map (\<lambda>row. replicate n 0) f) v"
proof -
  from assms have len: "length v = T" and rows: "\<And>f. f \<in> set v \<Longrightarrow> length f = H"
    by (auto simp: is_array4_def is_array3_def list_all_iff)
  have "map (\<lambda>f. map (\<lambda>row. replicate n (0::real)) f) v = map (\<lambda>f. replicate H (replicate n 0)) v"
    by (rule map_cong) (simp_all add: map_replicate_const rows)
  also have "\<dots> = replicate T (replicate H (replicate n 0))"
    by (simp add: map_replicate_const len)
  finally show ?thesis
    by (simp add: np_zeros3_def)
qed

lemma zeros3_y:
  assumes "is_array4 T H W C v" "y < H"
  shows "np_zeros3 T W n = map (\<lambda>f. map (\<lambda>p. replicate n 0) (f ! y)) v"
proof -
  from assms have len: "length v = T" and rows: "\<And>f. f \<in> set v \<Longrightarrow> length (f ! y) = W"
    by (auto simp: is_array4_def is_array3_def list_all_iff)
  have "map (\<lambda>f. map (\<lambda>p. replicate n (0::real)) (f ! y)) v = map (\<lambda>f. replicate W (replicate n 0)) v"
    by (rule map_cong) (simp_all add: map_replicate_const rows)
  also have "\<dots> = replicate T (replicate W (replicate n 0))"
    by (simp add: map_replicate_const len)
  finally show ?thesis
    by (simp add: np_zeros3_def)
qed

lemma slice_x:
  assumes "is_array4 T H W C v" "0 < T" "0 < H" "0 < W" "3 \<le> C" "x < W"
  shows "fill_channels (index_x v x) (np_zeros3 T H 3) [0 ..< 3]
     = Inr (map (\<lambda>f. map (\<lambda>row. [row ! x ! 0, row ! x ! 1, row ! x ! 2]) f) v)"
proof -
  from assms have sh: "shape4 v = (T, H, W, C)"
    by (simp add: shape4_array)
  have src: "index_x v x c = Inr (map (\<lambda>f. map (\<lambda>row. row ! x ! c) f) v)" if "c < 3" for c
    using that assms(5,6) by (simp add: index_x_def sh)
  show ?thesis
    unfolding zeros3_x[OF assms(1)]
    by (rule fill_three[where g="\<lambda>f row c. row ! x ! c" and k="\<lambda>f. f"]) (rule src)
qed

lemma slice_y:
  assumes "is_array4 T H W C v" "0 < T" "0 < H" "0 < W" "3 \<le> C" "y < H"
  shows "fill_channels (index_y v y) (np_zeros3 T W 3) [0 ..< 3]
     = Inr (map (\<lambda>f. map (\<lambda>p. [p ! 0, p ! 1, p ! 2]) (f ! y)) v)"
proof -
  from assms have sh: "shape4 v = (T, H, W, C)"
    by (simp add: shape4_array)
  have src: "index_y v y c = Inr (map (\<lambda>f. map (\<lambda>p. p ! c) (f ! y)) v)" if "c < 3" for c
    using that assms(5,6) by (simp add: index_y_def sh)
  show ?thesis
    unfolding zeros3_y[OF assms(1,6)]
    by (rule fill_three[where g="\<lambda>f p c. p ! c" and k="\<lambda>f. f ! y"]) (rule src)
qed

lemma slice_x_fails:
  assumes "is_array4 T H W C v" "0 < T" "0 < H" "0 < W" "W \<le> x"
  shows "fill_channels (index_x v x) S [0 ..< 3] = Inl Index_out_of_bounds"
proof -
  from assms have sh: "shape4 v = (T, H, W, C)"
    by (simp add: shape4_array)
  with assms(5) show ?thesis
    by (simp add: upt_conv_Cons index_x_def)
qed

lemma slice_y_fails:
  assumes "is_array4 T H W C v" "0 < T" "0 < H" "0 < W" "H \<le> y"
  shows "fill_channels (index_y v y) S [0 ..< 3] = Inl Index_out_of_bounds"
proof -
  from assms have sh: "shape4 v = (T, H, W, C)"
    by (simp add: shape4_array)
  with assms(5) show ?thesis
    by (simp add: upt_conv_Cons index_y_def)
qed

text \<open>
  C3. In the time-depth view (X-Y-T) the animation runs through T indices, T the
  number of frames of the volume, and for every index t below T the displayed slice
  is exactly Volume[t]; an index from T on is out of bounds.
\<close>

theorem time_depth_view:
  assumes "is_array4 (time st) (height st) (width st) (channels st) (volume st)"
    and "current_view st = ''X-Y-T''"
  shows "start_animation st = length (volume st) \<and>
    (\<forall>t. update st t =
       (if t < length (volume st) then Inr (volume st ! t) else Inl Index_out_of_bounds))"
  using assms by (simp add: start_animation_def update_def is_array4_def)

text \<open>
  C4. In the x-depth view (Y-T-X) of a volume of shape (T, H, W, C) with at least
  three channels the animation runs through W indices; for every x below W the
  displayed image S has shape (T, H, 3) and S[t, y, c] = Volume[t, y, x, c] for all
  t < T, y < H, c < 3; an index from W on is out of bounds.
\<close>

theorem x_depth_view:
  assumes "is_array4 (time st) (height st) (width st) (channels st) (volume st)"
    and "0 < time st" "0 < height st" "0 < width st" "3 \<le> channels st"
    and "current_view st = ''Y-T-X''"
  shows "start_animation st = width st \<and>
    (\<forall>x \<ge> width st. update st x = Inl Index_out_of_bounds) \<and>
    (\<forall>x < width st. \<exists>S. update st x = Inr S \<and> is_array3 (time st) (height st) 3 S \<and>
       (\<forall>t < time st. \<forall>y < height st. \<forall>c < 3. S ! t ! y ! c = volume st ! t ! y ! x ! c))"
proof (intro conjI allI impI)
  show "start_animation st = width st"
    using assms(6) by (simp add: start_animation_def)
next
  fix x assume "width st \<le> x"
  with assms show "update st x = Inl Index_out_of_bounds"
    by (simp add: update_def slice_x_fails)
next
  fix x assume x: "x < width st"
  let ?S = "map (\<lambda>f. map (\<lambda>row. [row ! x ! 0, row ! x ! 1, row ! x ! 2]) f) (volume st)"
  have u: "update st x = Inr ?S"
    using assms x by (simp add: update_def slice_x)
  from assms(1) have len: "length (volume st) = time st"
    and rows: "\<And>f. f \<in> set (volume st) \<Longrightarrow> length f = height st"
    by (auto simp: is_array4_def is_array3_def list_all_iff)
  have a: "is_array3 (time st) (height st) 3 ?S"
    using len rows by (auto simp: is_array3_def list_all_iff)
  have "?S ! t ! y ! c = volume st ! t ! y ! x ! c" if "t < time st" "y < height st" "c < 3" for t y c
  proof -
    from that(1) len have "volume st ! t \<in> set (volume st)" by simp
    with rows have "length (volume st ! t) = height st" by blast
    with that len have "?S ! t ! y = [volume st ! t ! y ! x ! 0, volume st ! t ! y ! x ! 1, volume st ! t ! y ! x ! 2]"
      by simp
    moreover from that(3) have "c = 0 \<or> c = 1 \<or> c = 2" by auto
    ultimately show ?thesis by auto
  qed
  with u a show "\<exists>S. update st x = Inr S \<and> is_array3 (time st) (height st) 3 S \<and>
       (\<forall>t < time st. \<forall>y < height st. \<forall>c < 3. S ! t ! y ! c = volume st ! t ! y ! x ! c)"
    by blast
qed

text \<open>
  C5. In the y-depth view (T-X-Y) of a volume of shape (T, H, W, C) with at least
  three channels the animation runs through H indices; for every y below H the
  displayed image S has shape (T, W, 3) and S[t, x, c] = Volume[t, y, x, c] for all
  t < T, x < W, c < 3; an index from H on is out of bounds.
\<close>

theorem y_depth_view:
  assumes "is_array4 (time st) (height st) (width st) (channels st) (volume st)"
    and "0 < time st" "0 < height st" "0 < width st" "3 \<le> channels st"
    and "current_view st = ''T-X-Y''"
  shows "start_animation st = height st \<and>
    (\<forall>y \<ge> height st. update st y = Inl Index_out_of_bounds) \<and>
    (\<forall>y < height st. \<exists>S. update st y = Inr S \<and> is_array3 (time st) (width st) 3 S \<and>
       (\<forall>t < time st. \<forall>x < width st. \<forall>c < 3. S ! t ! x ! c = volume st ! t ! y ! x ! c))"
proof (intro conjI allI impI)
  show "start_animation st = height st"
    using assms(6) by (simp add: start_animation_def)
next
  fix y assume "height st \<le> y"
  with assms show "update st y = Inl Index_out_of_bounds"
    by (simp add: update_def slice_y_fails)
next
  fix y assume y: "y < height st"
  let ?S = "map (\<lambda>f. map (\<lambda>p. [p ! 0, p ! 1, p ! 2]) (f ! y)) (volume st)"
  have u: "update st y = Inr ?S"
    using assms y by (simp add: update_def slice_y)
  from assms(1) y have len: "length (volume st) = time st"
    and rows: "\<And>f. f \<in> set (volume st) \<Longrightarrow> length (f ! y) = width st"
    by (auto simp: is_array4_def is_array3_def list_all_iff)
  have a: "is_array3 (time st) (width st) 3 ?S"
    using len rows by (auto simp: is_array3_def list_all_iff)
  have "?S ! t ! x ! c = volume st ! t ! y ! x ! c" if "t < time st" "x < width st" "c < 3" for t x c
  proof -
    from that(1) len have "volume st ! t \<in> set (volume st)" by simp
    with rows have "length (volume st ! t ! y) = width st" by blast
    with that len have "?S ! t ! x = [volume st ! t ! y ! x ! 0, volume st ! t ! y ! x ! 1, volume st ! t ! y ! x ! 2]"
      by simp
    moreover from that(3) have "c = 0 \<or> c = 1 \<or> c = 2" by auto
    ultimately show ?thesis by auto
  qed
  with u a show "\<exists>S. update st y = Inr S \<and> is_array3 (time st) (width st) 3 S \<and>
       (\<forall>t < time st. \<forall>x < width st. \<forall>c < 3. S ! t ! x ! c = volume st ! t ! y ! x ! c)"
    by blast
qed

section \<open>Export of a view\<close>



lemma export_loop_fails:
  assumes "0 < n" "fill_channels (src 0) (data ! 0) [0 ..< 3] = Inl e"
  shows "export_loop src data [0 ..< n] = Inl e"
  using assms by (simp add: upt_conv_Cons)


section \<open>Concrete instances of the views\<close>

lemma example_array:
  "is_array4 (time (example_visualizer view rate)) (height (example_visualizer view rate))
     (width (example_visualizer view rate)) (channels (example_visualizer view rate))
     (volume (example_visualizer view rate))"
  by (simp add: example_visualizer_def example_volume_def is_array4_def is_array3_def)

theorem time_depth_view_witness:
  "current_view (example_visualizer ''X-Y-T'' (Num 20)) = ''X-Y-T'' \<and>
   start_animation (example_visualizer ''X-Y-T'' (Num 20)) = 2 \<and>
   update (example_visualizer ''X-Y-T'' (Num 20)) 1
     = Inr [[[12, 13, 14], [15, 16, 17]], [[18, 19, 20], [21, 22, 23]]] \<and>
   update (example_visualizer ''X-Y-T'' (Num 20)) 2 = Inl Index_out_of_bounds"
proof -
  let ?st = "example_visualizer ''X-Y-T'' (Num 20)"
  have v: "current_view ?st = ''X-Y-T''"
    by (simp add: example_visualizer_def)
  from time_depth_view[OF example_array v]
  have "start_animation ?st = length (volume ?st)"
    and "update ?st 1 = (if 1 < length (volume ?st) then Inr (volume ?st ! 1) else Inl Index_out_of_bounds)"
    and "update ?st 2 = (if 2 < length (volume ?st) then Inr (volume ?st ! 2) else Inl Index_out_of_bounds)"
    by blast+
  moreover have "volume ?st = example_volume"
    by (simp add: example_visualizer_def)
  ultimately show ?thesis
    using v by (simp add: example_volume_def)
qed

theorem x_depth_view_witness:
  "current_view (example_visualizer ''Y-T-X'' (Num 20)) = ''Y-T-X'' \<and>
   start_animation (example_visualizer ''Y-T-X'' (Num 20)) = 2 \<and>
   update (example_visualizer ''Y-T-X'' (Num 20)) 2 = Inl Index_out_of_bounds \<and>
   (\<exists>S. update (example_visualizer ''Y-T-X'' (Num 20)) 1 = Inr S \<and> is_array3 2 2 3 S \<and>
        S ! 1 ! 0 ! 2 = 17)"
proof -
  let ?st = "example_visualizer ''Y-T-X'' (Num 20)"
  have v: "current_view ?st = ''Y-T-X''"
    by (simp add: example_visualizer_def)
  have d: "time ?st = 2" "height ?st = 2" "width ?st = 2" "channels ?st = 3"
    "volume ?st = example_volume"
    by (simp_all add: example_visualizer_def)
  have "start_animation ?st = width ?st \<and>
    (\<forall>x \<ge> width ?st. update ?st x = Inl Index_out_of_bounds) \<and>
    (\<forall>x < width ?st. \<exists>S. update ?st x = Inr S \<and> is_array3 (time ?st) (height ?st) 3 S \<and>
       (\<forall>t < time ?st. \<forall>y < height ?st. \<forall>c < 3. S ! t ! y ! c = volume ?st ! t ! y ! x ! c))"
    by (rule x_depth_view[OF example_array _ _ _ _ v]) (simp_all add: d)
  then have a: "start_animation ?st = 2" and b: "update ?st 2 = Inl Index_out_of_bounds"
    and c: "\<exists>S. update ?st 1 = Inr S \<and> is_array3 2 2 3 S \<and>
       (\<forall>t < 2. \<forall>y < 2. \<forall>c < 3. S ! t ! y ! c = example_volume ! t ! y ! 1 ! c)"
    unfolding d by simp_all
  from c obtain S where S: "update ?st 1 = Inr S" "is_array3 2 2 3 S"
    "S ! 1 ! 0 ! 2 = example_volume ! 1 ! 0 ! 1 ! 2"
    by force
  have "example_volume ! 1 ! 0 ! 1 ! 2 = 17"
    by (simp add: example_volume_def)
  with S a b v show ?thesis by auto
qed

theorem y_depth_view_witness:
  "current_view (example_visualizer ''T-X-Y'' (Num 20)) = ''T-X-Y'' \<and>
   start_animation (example_visualizer ''T-X-Y'' (Num 20)) = 2 \<and>
   update (example_visualizer ''T-X-Y'' (Num 20)) 2 = Inl Index_out_of_bounds \<and>
   (\<exists>S. update (example_visualizer ''T-X-Y'' (Num 20)) 1 = Inr S \<and> is_array3 2 2 3 S \<and>
        S ! 1 ! 0 ! 2 = 20)"
proof -
  let ?st = "example_visualizer ''T-X-Y'' (Num 20)"
  have v: "current_view ?st = ''T-X-Y''"
    by (simp add: example_visualizer_def)
  have d: "time ?st = 2" "height ?st = 2" "width ?st = 2" "channels ?st = 3"
    "volume ?st = example_volume"
    by (simp_all add: example_visualizer_def)
  have "start_animation ?st = height ?st \<and>
    (\<forall>y \<ge> height ?st. update ?st y = Inl Index_out_of_bounds) \<and>
    (\<forall>y < height ?st. \<exists>S. update ?st y = Inr S \<and> is_array3 (time ?st) (width ?st) 3 S \<and>
       (\<forall>t < time ?st. \<forall>x < width ?st. \<forall>c < 3. S ! t ! x ! c = volume ?st ! t ! y ! x ! c))"
    by (rule y_depth_view[OF example_array _ _ _ _ v]) (simp_all add: d)
  then have a: "start_animation ?st = 2" and b: "update ?st 2 = Inl Index_out_of_bounds"
    and c: "\<exists>S. update ?st 1 = Inr S \<and> is_array3 2 2 3 S \<and>
       (\<forall>t < 2. \<forall>x < 2. \<forall>c < 3. S ! t ! x ! c = example_volume ! t ! 1 ! x ! c)"
    unfolding d by simp_all
  from c obtain S where S: "update ?st 1 = Inr S" "is_array3 2 2 3 S"
    "S ! 1 ! 0 ! 2 = example_volume ! 1 ! 1 ! 0 ! 2"
    by force
  have "example_volume ! 1 ! 1 ! 0 ! 2 = 20"
    by (simp add: example_volume_def)
  with S a b v show ?thesis by auto
qed


section \<open>Playback rate\<close>






declare str_nat.simps [simp del]



lemma str_int_23: "str_int 23 = ''23''"
  by code_simp

lemma str_lower_views:
  "str_lower ''X-Y-T'' = ''x-y-t''" "str_lower ''Y-T-X'' = ''y-t-x''"
  "str_lower ''T-X-Y'' = ''t-x-y''"
  by code_simp+

text \<open>
  C7, as the code has it. For every base name without a path separator, every view
  and every finite rate the export path is
  exports/<base name>_<view name in lower case>_<n>fps.gif, where n is the rate with
  its fraction cut off (rounded towards zero), not the nearest integer.
\<close>

theorem output_path_truncates:
  assumes "fps st = Num r" "CHR ''/'' \<notin> set (base_name st)"
  shows "output_path st =
     Inr (''exports/'' @ base_name st @ ''_'' @ str_lower (current_view st) @ ''_'' @
          str_int (if r < 0 then \<lceil>r\<rceil> else \<lfloor>r\<rfloor>) @ ''fps.gif'')"
proof -
  let ?name = "base_name st @ ''_'' @ str_lower (current_view st) @ ''_'' @
          str_int (py_trunc r) @ ''fps.gif''"
  have "?name \<noteq> [] \<and> hd ?name \<noteq> CHR ''/''"
    using assms(2) by (cases "base_name st") auto
  then have "os_path_join ''exports'' ?name = ''exports/'' @ ?name"
    by (simp add: os_path_join_def)
  with assms(1) show ?thesis
    by (simp add: output_path_def py_trunc_def)
qed

theorem output_path_truncates_witness:
  "fps (example_visualizer ''Y-T-X'' (Num (237 / 10))) = Num (237 / 10) \<and>
   CHR ''/'' \<notin> set (base_name (example_visualizer ''Y-T-X'' (Num (237 / 10)))) \<and>
   output_path (example_visualizer ''Y-T-X'' (Num (237 / 10)))
     = Inr ''exports/clip_y-t-x_23fps.gif''"
  using output_path_truncates[of "example_visualizer ''Y-T-X'' (Num (237 / 10))" "237 / 10"]
  by (simp add: example_visualizer_def str_lower_views str_int_23)

text \<open>
  C7 as stated fails: at the rate 23.7 the file name carries 23fps, while the
  nearest integer is 24.
\<close>

theorem output_path_not_rounded:
  "output_path (example_visualizer ''X-Y-T'' (Num (237 / 10)))
     = Inr ''exports/clip_x-y-t_23fps.gif'' \<and>
   round (237 / 10 :: real) = 24 \<and>
   output_path (example_visualizer ''X-Y-T'' (Num (237 / 10)))
     \<noteq> Inr ''exports/clip_x-y-t_24fps.gif''"
  by (simp add: output_path_def example_visualizer_def py_trunc_def str_lower_views
      str_int_23 os_path_join_def round_def)

section \<open>Conversion to bytes\<close>
















end
